theory Spec2Isabelle
  imports Main
begin

section \<open>Table mappings of the object mapper (lib/mapping/table-mappings.js)\<close>

text \<open>
  The module defines the interface \<^verbatim>\<open>TableMappings\<close> and three implementations,
  \<^verbatim>\<open>DefaultTableMappings\<close>, \<^verbatim>\<open>UnderscoreCqlToCamelCaseMappings\<close> and
  \<^verbatim>\<open>UnderscoreCqlToPascalCaseMappings\<close>. The definitions below follow the first
  module text of the source file (lines 1 to 355), the one whose underscore classes take
  the constructor argument \<^verbatim>\<open>convertLongToString\<close>.

  Identifiers are values of type \<open>string\<close>. The case mappings of JavaScript are
  modelled on the ASCII letters, which is what CQL identifiers and the property names of
  the claims are made of; every other character is left as it is.

  The source file holds a second, older text of the same module after line 355 (no flag,
  no guard for non-objects). It is not what the claims cite and is not modelled.

  The declarations of the module (lib/mapping/index.d.ts) state the snake case of a
  property name as a type, \<^verbatim>\<open>snakeCase\<close>; it is modelled beside the runtime.
\<close>

subsection \<open>Characters and the string primitives of the host language\<close>

text \<open>The code unit of a character, as \<^verbatim>\<open>charCodeAt\<close> reads it.\<close>

definition charCode :: "char \<Rightarrow> nat" where
  "charCode c = of_char c"

text \<open>The character class \<^verbatim>\<open>[A-Z]\<close> of the regular expression, and its lowercase mirror.\<close>

definition isUpperAZ :: "char \<Rightarrow> bool" where
  "isUpperAZ c = (65 \<le> charCode c \<and> charCode c \<le> 90)"

definition isLowerAZ :: "char \<Rightarrow> bool" where
  "isLowerAZ c = (97 \<le> charCode c \<and> charCode c \<le> 122)"

definition lowerChar :: "char \<Rightarrow> char" where
  "lowerChar c = (if isUpperAZ c then char_of (charCode c + 32) else c)"

definition upperChar :: "char \<Rightarrow> char" where
  "upperChar c = (if isLowerAZ c then char_of (charCode c - 32) else c)"

text \<open>\<^verbatim>\<open>String.prototype.toLowerCase\<close> and \<^verbatim>\<open>toUpperCase\<close>.\<close>

definition toLowerCase :: "string \<Rightarrow> string" where
  "toLowerCase s = map lowerChar s"

definition toUpperCase :: "string \<Rightarrow> string" where
  "toUpperCase s = map upperChar s"

text \<open>
  \<^verbatim>\<open>s.charAt(0)\<close> is the string of the first character, or the empty string when
  there is none; \<^verbatim>\<open>s.slice(1)\<close> is the rest.
\<close>

definition charAt0 :: "string \<Rightarrow> string" where
  "charAt0 s = take 1 s"

definition slice1 :: "string \<Rightarrow> string" where
  "slice1 s = drop 1 s"

text \<open>
  \<^verbatim>\<open>Array.prototype.join(sep)\<close>: the elements with the separator between
  neighbours; one element gives that element, no element the empty string.
\<close>

fun join :: "string \<Rightarrow> string list \<Rightarrow> string" where
  "join sep [] = []"
| "join sep [w] = w"
| "join sep (w # v # ws) = w @ sep @ join sep (v # ws)"

text \<open>
  \<^verbatim>\<open>s.split(/(?=[A-Z])/)\<close>. The split loop of the language keeps the start \<open>p\<close>
  of the running segment and a scan position \<open>q\<close>. The lookahead matches the empty
  string at \<open>q\<close> exactly when the character at \<open>q\<close> is in \<^verbatim>\<open>[A-Z]\<close>; an empty
  match at \<open>q = p\<close> is skipped, any other match closes the segment \<open>s[p..q)\<close> and
  starts the next one at \<open>q\<close>. After the loop the running segment is pushed, so the
  empty string gives one empty segment. The argument \<open>cur\<close> is \<open>s[p..q)\<close>.
\<close>

fun splitUpperFrom :: "string \<Rightarrow> string \<Rightarrow> string list" where
  "splitUpperFrom cur [] = [cur]"
| "splitUpperFrom cur (c # cs) =
     (if isUpperAZ c \<and> cur \<noteq> [] then cur # splitUpperFrom [c] cs
      else splitUpperFrom (cur @ [c]) cs)"

definition splitBeforeUpper :: "string \<Rightarrow> string list" where
  "splitBeforeUpper s = splitUpperFrom [] s"

text \<open>
  \<^verbatim>\<open>s.split('_')\<close>: a segment ends at every underscore; the running segment is
  pushed at the end, so there is always at least one segment, and leading, trailing and
  doubled underscores give empty segments.
\<close>

fun splitCharFrom :: "char \<Rightarrow> string \<Rightarrow> string \<Rightarrow> string list" where
  "splitCharFrom d cur [] = [cur]"
| "splitCharFrom d cur (c # cs) =
     (if c = d then cur # splitCharFrom d [] cs
      else splitCharFrom d (cur @ [c]) cs)"

definition splitUnderscore :: "string \<Rightarrow> string list" where
  "splitUnderscore s = splitCharFrom (CHR ''_'') [] s"

text \<open>\<^verbatim>\<open>Array.prototype.map\<close> with the callback receiving the element and its index.\<close>

fun mapIndexFrom :: "nat \<Rightarrow> ('a \<Rightarrow> nat \<Rightarrow> 'b) \<Rightarrow> 'a list \<Rightarrow> 'b list" where
  "mapIndexFrom i f [] = []"
| "mapIndexFrom i f (x # xs) = f x i # mapIndexFrom (Suc i) f xs"

definition mapIndex :: "('a \<Rightarrow> nat \<Rightarrow> 'b) \<Rightarrow> 'a list \<Rightarrow> 'b list" where
  "mapIndex f xs = mapIndexFrom 0 f xs"

subsection \<open>The mapping classes and their identifier conversions\<close>

text \<open>The three exported implementations; the flag is \<^verbatim>\<open>this.convertLongToString\<close>.\<close>

datatype mappings =
    DefaultTableMappings
  | UnderscoreCqlToCamelCaseMappings bool
  | UnderscoreCqlToPascalCaseMappings bool

text \<open>The constructor of \<^verbatim>\<open>TableMappings\<close>: the keyword list, each word lowercased.\<close>

definition ReservedWordsUpper :: "string list" where
  "ReservedWordsUpper =
    [''ADD'', ''ALLOW'', ''ALTER'', ''AND'', ''APPLY'', ''ASC'', ''AUTHORIZE'', ''BATCH'',
     ''BEGIN'', ''BY'', ''COLUMNFAMILY'', ''CREATE'', ''DELETE'', ''DESC'', ''DESCRIBE'',
     ''DROP'', ''ENTRIES'', ''EXECUTE'', ''FROM'', ''FULL'', ''GRANT'', ''IF'', ''IN'',
     ''INDEX'', ''INFINITY'', ''INSERT'', ''INTO'', ''KEYSPACE'', ''LIMIT'', ''MODIFY'',
     ''NAN'', ''NORECURSIVE'', ''NOT'', ''NULL'', ''OF'', ''ON'', ''OR'', ''ORDER'',
     ''PRIMARY'', ''RENAME'', ''REPLACE'', ''REVOKE'', ''SCHEMA'', ''SELECT'', ''SET'',
     ''TABLE'', ''TO'', ''TOKEN'', ''TRUNCATE'', ''UNLOGGED'', ''UPDATE'', ''USE'',
     ''USING'', ''VIEW'', ''WHERE'', ''WITH'']"

definition ReservedWords :: "string list" where
  "ReservedWords = map toLowerCase ReservedWordsUpper"

text \<open>\<^verbatim>\<open>PropName.split(/(?=[A-Z])/).join('_').toLowerCase()\<close>\<close>

definition splitJoinLower :: "string \<Rightarrow> string" where
  "splitJoinLower PropName = toLowerCase (join ''_'' (splitBeforeUpper PropName))"

text \<open>\<^verbatim>\<open>getColumnName\<close> of the two underscore classes (the same text in both).\<close>

definition underscoreColumnName :: "string \<Rightarrow> string" where
  "underscoreColumnName PropName =
     (let Propertyname = splitJoinLower PropName
      in if Propertyname \<in> set ReservedWords then Propertyname @ ''_''
         else Propertyname)"

fun getColumnName :: "mappings \<Rightarrow> string \<Rightarrow> string" where
  "getColumnName DefaultTableMappings propName = propName"
| "getColumnName (UnderscoreCqlToCamelCaseMappings f) PropName = underscoreColumnName PropName"
| "getColumnName (UnderscoreCqlToPascalCaseMappings f) PropName = underscoreColumnName PropName"

text \<open>\<^verbatim>\<open>word.charAt(0).toUpperCase() + word.slice(1)\<close>\<close>

definition capitalize :: "string \<Rightarrow> string" where
  "capitalize word = toUpperCase (charAt0 word) @ slice1 word"

fun getPropertyName :: "mappings \<Rightarrow> string \<Rightarrow> string" where
  "getPropertyName DefaultTableMappings columnName = columnName"
| "getPropertyName (UnderscoreCqlToCamelCaseMappings f) columnName =
     join [] (mapIndex (\<lambda>word index. if index = 0 then word else capitalize word)
                (splitUnderscore columnName))"
| "getPropertyName (UnderscoreCqlToPascalCaseMappings f) ColumnName =
     join [] (map capitalize (splitUnderscore ColumnName))"

subsection \<open>The declared snake case (lib/mapping/index.d.ts, lines 21 to 45)\<close>

text \<open>
  The declarations give the column names their own definition: the option
  \<^verbatim>\<open>fields\<close> of the mapper has the type \<^verbatim>\<open>getKeys<T>\<close>, the list of
  \<^verbatim>\<open>snakeCase<keyof T>\<close>. The types \<^verbatim>\<open>UpperCaseLetters\<close> and
  \<^verbatim>\<open>lowerCaseLetters\<close> are the unions of the 26 one-letter strings, and
  \<^verbatim>\<open>Lowercase\<close> is the intrinsic type that lowercases a string.
\<close>

definition UpperCaseLetters :: "string \<Rightarrow> bool" where
  "UpperCaseLetters s = (case s of [c] \<Rightarrow> isUpperAZ c | _ \<Rightarrow> False)"

definition lowerCaseLetters :: "string \<Rightarrow> bool" where
  "lowerCaseLetters s = (case s of [c] \<Rightarrow> isLowerAZ c | _ \<Rightarrow> False)"

definition Lowercase :: "string \<Rightarrow> string" where
  "Lowercase S = toLowerCase S"

text \<open>
  \<^verbatim>\<open>snakeCaseConditions<P, S1, S2>\<close>: the current character \<open>S1\<close> is an uppercase
  letter, it is not the first (the previous character \<open>P\<close> is not the empty string),
  and the previous or the next character \<open>S2\<close> is a lowercase letter.
\<close>

definition snakeCaseConditions :: "string \<Rightarrow> string \<Rightarrow> string \<Rightarrow> bool" where
  "snakeCaseConditions P S1 S2 =
     (if UpperCaseLetters S1
      then (if P = [] then False
            else if lowerCaseLetters P then True
            else if lowerCaseLetters S2 then True
            else False)
      else False)"

text \<open>
  \<^verbatim>\<open>snakeCase<S, P = "">\<close>. The pattern with three \<^verbatim>\<open>infer\<close> positions matches a
  string of two characters or more: \<open>S1\<close> and \<open>S2\<close> are its first two characters and
  \<open>S3\<close> is the rest. A shorter string is lowercased as it is, so the last character
  never gets a separator.
\<close>

fun snakeCase :: "string \<Rightarrow> string \<Rightarrow> string" where
  "snakeCase (S1 # S2 # S3) P =
     (if snakeCaseConditions P [S1] [S2]
      then ''_'' @ Lowercase [S1] @ snakeCase (S2 # S3) [S1]
      else Lowercase [S1] @ snakeCase (S2 # S3) [S1])"
| "snakeCase S P = Lowercase S"

subsection \<open>Values of the host language\<close>

text \<open>
  A document is a tree of values. \<open>JDate\<close> is an instance of \<^verbatim>\<open>Date\<close> (its time
  value), \<open>JLong\<close> a signed instance of the driver's \<^verbatim>\<open>Long\<close> (its 64-bit value),
  \<open>JObject\<close> a plain object: its own enumerable string-keyed properties, in the
  order in which \<^verbatim>\<open>Object.entries\<close> lists them. Numbers are passed around and never
  computed with, so integers stand for them. Two values are the same value when the terms
  are equal.
\<close>

datatype jsval =
    JUndefined
  | JNull
  | JBoolean bool
  | JNumber int
  | JString string
  | JDate int
  | JLong int
  | JArray "jsval list"
  | JObject "(string \<times> jsval) list"

type_synonym entries = "(string \<times> jsval) list"

fun typeof :: "jsval \<Rightarrow> string" where
  "typeof JUndefined = ''undefined''"
| "typeof JNull = ''object''"
| "typeof (JBoolean b) = ''boolean''"
| "typeof (JNumber n) = ''number''"
| "typeof (JString s) = ''string''"
| "typeof (JDate t) = ''object''"
| "typeof (JLong v) = ''object''"
| "typeof (JArray xs) = ''object''"
| "typeof (JObject es) = ''object''"

fun instanceof_Date :: "jsval \<Rightarrow> bool" where
  "instanceof_Date (JDate t) = True"
| "instanceof_Date v = False"

fun instanceof_Long :: "jsval \<Rightarrow> bool" where
  "instanceof_Long (JLong v) = True"
| "instanceof_Long v = False"

fun Array_isArray :: "jsval \<Rightarrow> bool" where
  "Array_isArray (JArray xs) = True"
| "Array_isArray v = False"

fun elements :: "jsval \<Rightarrow> jsval list" where
  "elements (JArray xs) = xs"
| "elements v = []"

text \<open>The decimal digits of a number, for array indices and for \<^verbatim>\<open>Long.toString()\<close>.\<close>

function decimalNat :: "nat \<Rightarrow> string" where
  "decimalNat n =
     (if n < 10 then [char_of (48 + n)]
      else decimalNat (n div 10) @ [char_of (48 + n mod 10)])"
  by pat_completeness auto
termination
  by (relation "measure id") simp_all

declare decimalNat.simps [simp del]

definition decimalInt :: "int \<Rightarrow> string" where
  "decimalInt i = (if i < 0 then ''-'' @ decimalNat (nat (- i)) else decimalNat (nat i))"

text \<open>\<^verbatim>\<open>value.toString()\<close>, called on instances of \<^verbatim>\<open>Long\<close> only.\<close>

fun toString :: "jsval \<Rightarrow> jsval" where
  "toString (JLong v) = JString (decimalInt v)"
| "toString v = v"

text \<open>
  An instance of \<^verbatim>\<open>Long\<close> has three own fields: the low and the high 32 bits as
  signed integers, and the flag \<^verbatim>\<open>unsigned\<close>, which is false for the signed
  instances modelled here.
\<close>

definition lowBits :: "int \<Rightarrow> int" where
  "lowBits v = (v + 2147483648) mod 4294967296 - 2147483648"

definition highBits :: "int \<Rightarrow> int" where
  "highBits v = (v div 4294967296 + 2147483648) mod 4294967296 - 2147483648"

text \<open>
  \<^verbatim>\<open>Object.entries(obj)\<close> for what passes the guard \<^verbatim>\<open>typeof obj === 'object'\<close>:
  a plain object gives its properties, an array its elements under their indices, a
  \<^verbatim>\<open>Long\<close> its three fields, and a \<^verbatim>\<open>Date\<close> nothing, since it has no own
  enumerable property.
\<close>

fun Object_entries :: "jsval \<Rightarrow> entries" where
  "Object_entries (JObject es) = es"
| "Object_entries (JArray xs) = mapIndex (\<lambda>x i. (decimalNat i, x)) xs"
| "Object_entries (JLong v) =
     [(''low'', JNumber (lowBits v)), (''high'', JNumber (highBits v)),
      (''unsigned'', JBoolean False)]"
| "Object_entries v = []"

text \<open>
  The assignment \<^verbatim>\<open>newObject[k] = v\<close> on an object created by \<^verbatim>\<open>{}\<close>. A key
  that is already there keeps its place and takes the new value. A new key that is an
  array index (a canonical decimal numeral below \<open>2^32 - 1\<close>) is listed among the
  index keys in ascending order, before every other key; any other new key is listed
  last. The key \<^verbatim>\<open>__proto__\<close> reaches the setter inherited from the object prototype
  and creates no own property.
\<close>

definition isDigit :: "char \<Rightarrow> bool" where
  "isDigit c = (48 \<le> charCode c \<and> charCode c \<le> 57)"

fun digitsValue :: "nat \<Rightarrow> string \<Rightarrow> nat" where
  "digitsValue acc [] = acc"
| "digitsValue acc (c # cs) = digitsValue (10 * acc + (charCode c - 48)) cs"

definition isArrayIndex :: "string \<Rightarrow> bool" where
  "isArrayIndex k =
     (k \<noteq> [] \<and> list_all isDigit k \<and> (if k = ''0'' then True else take 1 k \<noteq> ''0'')
      \<and> digitsValue 0 k < 4294967295)"

fun insertIndexKey :: "string \<Rightarrow> jsval \<Rightarrow> entries \<Rightarrow> entries" where
  "insertIndexKey k v [] = [(k, v)]"
| "insertIndexKey k v ((k', v') # es) =
     (if isArrayIndex k' \<and> digitsValue 0 k' < digitsValue 0 k
      then (k', v') # insertIndexKey k v es
      else (k, v) # (k', v') # es)"

fun replaceValue :: "string \<Rightarrow> jsval \<Rightarrow> entries \<Rightarrow> entries" where
  "replaceValue k v [] = []"
| "replaceValue k v ((k', v') # es) =
     (if k' = k then (k, v) # es else (k', v') # replaceValue k v es)"

definition assignProperty :: "entries \<Rightarrow> string \<Rightarrow> jsval \<Rightarrow> entries" where
  "assignProperty newObject k v =
     (if k = ''__proto__'' then newObject
      else if k \<in> set (map fst newObject) then replaceValue k v newObject
      else if isArrayIndex k then insertIndexKey k v newObject
      else newObject @ [(k, v)])"

subsection \<open>The structural conversions\<close>

text \<open>
  What the first branch of the loop assigns for a \<^verbatim>\<open>Date\<close>, a \<^verbatim>\<open>null\<close> or a
  \<^verbatim>\<open>Long\<close>. Towards the table (\<^verbatim>\<open>objectToTableCasing\<close>) the camel class reads the
  flag (line 153), the pascal class assigns the value as it is (line 239), and so does
  the default class (line 328). Towards the document (\<^verbatim>\<open>objectToFixedCasing\<close>) both
  underscore classes read the flag (lines 129 and 214) and the default class does not
  (line 304).
\<close>

fun tableLeaf :: "mappings \<Rightarrow> jsval \<Rightarrow> jsval" where
  "tableLeaf (UnderscoreCqlToCamelCaseMappings convertLongToString) value =
     (if instanceof_Long value \<and> convertLongToString then toString value else value)"
| "tableLeaf (UnderscoreCqlToPascalCaseMappings convertLongToString) value = value"
| "tableLeaf DefaultTableMappings value = value"

fun fixedLeaf :: "mappings \<Rightarrow> jsval \<Rightarrow> jsval" where
  "fixedLeaf (UnderscoreCqlToCamelCaseMappings convertLongToString) value =
     (if instanceof_Long value \<and> convertLongToString then toString value else value)"
| "fixedLeaf (UnderscoreCqlToPascalCaseMappings convertLongToString) value =
     (if instanceof_Long value \<and> convertLongToString then toString value else value)"
| "fixedLeaf DefaultTableMappings value = value"

text \<open>
  The loop \<^verbatim>\<open>for (const [key, value] of Object.entries(obj))\<close> of both conversions:
  \<open>name\<close> is the key conversion, \<open>leaf\<close> the assignment of the first branch and
  \<open>recur\<close> the conversion itself, called in the second branch.
\<close>

fun forEntries ::
  "(string \<Rightarrow> string) \<Rightarrow> (jsval \<Rightarrow> jsval) \<Rightarrow> (jsval \<Rightarrow> jsval) \<Rightarrow> entries \<Rightarrow> entries \<Rightarrow> entries"
where
  "forEntries name leaf recur [] newObject = newObject"
| "forEntries name leaf recur ((key, value) # rest) newObject =
     forEntries name leaf recur rest
       (if instanceof_Date value \<or> value = JNull \<or> instanceof_Long value
        then assignProperty newObject (name key) (leaf value)
        else if typeof value = ''object''
        then assignProperty newObject (name key) (recur value)
        else assignProperty newObject (name key) value)"

text \<open>The values the loop hands to \<open>recur\<close>; the facts below justify the recursion.\<close>

definition walked :: "jsval \<Rightarrow> bool" where
  "walked value =
     (\<not> (instanceof_Date value \<or> value = JNull \<or> instanceof_Long value)
      \<and> typeof value = ''object'')"

lemma forEntries_cong [fundef_cong]:
  assumes "es = es'" and "newObject = newObject'" and "name = name'" and "leaf = leaf'"
    and "\<And>key value. (key, value) \<in> set es' \<Longrightarrow> walked value \<Longrightarrow> recur value = recur' value"
  shows "forEntries name leaf recur es newObject = forEntries name' leaf' recur' es' newObject'"
  using assms
proof (induction es arbitrary: es' newObject newObject')
  case Nil
  then show ?case by simp
next
  case (Cons e es)
  obtain k0 v0 where e: "e = (k0, v0)" by (cases e)
  from Cons.prems(1) e have es': "es' = (k0, v0) # es" by simp
  have tail: "recur v = recur' v" if "(k, v) \<in> set es" "walked v" for k v
    using Cons.prems(5) [of k v] that es' by simp
  have head: "recur v0 = recur' v0" if "walked v0"
    using Cons.prems(5) [of k0 v0] that es' by simp
  have ih: "\<And>acc. forEntries name leaf recur es acc = forEntries name' leaf' recur' es acc"
    using Cons.prems(3,4) tail by (intro Cons.IH) simp_all
  show ?case
    using Cons.prems(1-4) e head ih by (auto simp: walked_def)
qed

lemma mapIndexFrom_values:
  "(key, v) \<in> set (mapIndexFrom i (\<lambda>x i. (g i, x)) xs) \<Longrightarrow> v \<in> set xs"
  by (induction xs arbitrary: i) auto

lemma walked_entry_smaller:
  "(key, value) \<in> set (Object_entries obj) \<Longrightarrow> walked value \<Longrightarrow> size value < size obj"
proof (cases obj)
  case (JObject es)
  assume "(key, value) \<in> set (Object_entries obj)"
  with JObject have "(key, value) \<in> set es" by simp
  then have "size value < Suc (size_list (size_prod (\<lambda>_. 0) size) es)"
    by (induction es) auto
  with JObject show ?thesis by simp
next
  case (JArray xs)
  assume "(key, value) \<in> set (Object_entries obj)"
  with JArray have "(key, value) \<in> set (mapIndexFrom 0 (\<lambda>x i. (decimalNat i, x)) xs)"
    by (simp add: mapIndex_def)
  then have "value \<in> set xs"
    by (rule mapIndexFrom_values)
  then have "size value < Suc (size_list size xs)"
    by (induction xs) auto
  with JArray show ?thesis by simp
qed (auto simp: walked_def)

lemma element_smaller: "x \<in> set (elements obj) \<Longrightarrow> size x < size obj"
proof (cases obj)
  case (JArray xs)
  assume "x \<in> set (elements obj)"
  with JArray have "x \<in> set xs" by simp
  then have "size x < Suc (size_list size xs)"
    by (induction xs) auto
  with JArray show ?thesis by simp
qed simp_all

text \<open>
  \<^verbatim>\<open>objectToTableCasing(obj)\<close>, lines 145 to 167, 231 to 253 and 320 to 342. The three
  classes differ in \<open>getColumnName\<close> and in \<open>tableLeaf\<close> only.
\<close>

function objectToTableCasing :: "mappings \<Rightarrow> jsval \<Rightarrow> jsval" where
  "objectToTableCasing m obj =
     (if typeof obj \<noteq> ''object'' \<or> obj = JNull then obj
      else if \<not> Array_isArray obj
      then JObject (forEntries (getColumnName m) (tableLeaf m) (objectToTableCasing m)
                      (Object_entries obj) [])
      else if Array_isArray obj then JArray (map (objectToTableCasing m) (elements obj))
      else obj)"
  by pat_completeness auto
termination
proof (relation "measure (\<lambda>(m, obj). size obj)")
  show "wf (measure (\<lambda>(m, obj). size obj))" by simp
next
  fix m :: mappings and obj x2 :: jsval and x1 :: string
  assume "(x1, x2) \<in> set (Object_entries obj)" and "walked x2"
  then show "((m, x2), (m, obj)) \<in> measure (\<lambda>(m, obj). size obj)"
    by (simp add: walked_entry_smaller)
next
  fix m :: mappings and obj x :: jsval
  assume "x \<in> set (elements obj)"
  then show "((m, x), (m, obj)) \<in> measure (\<lambda>(m, obj). size obj)"
    by (simp add: element_smaller)
qed

text \<open>\<^verbatim>\<open>objectToFixedCasing(obj)\<close>, lines 121 to 143, 206 to 229 and 296 to 318.\<close>

function objectToFixedCasing :: "mappings \<Rightarrow> jsval \<Rightarrow> jsval" where
  "objectToFixedCasing m obj =
     (if typeof obj \<noteq> ''object'' \<or> obj = JNull then obj
      else if \<not> Array_isArray obj
      then JObject (forEntries (getPropertyName m) (fixedLeaf m) (objectToFixedCasing m)
                      (Object_entries obj) [])
      else if Array_isArray obj then JArray (map (objectToFixedCasing m) (elements obj))
      else obj)"
  by pat_completeness auto
termination
proof (relation "measure (\<lambda>(m, obj). size obj)")
  show "wf (measure (\<lambda>(m, obj). size obj))" by simp
next
  fix m :: mappings and obj x2 :: jsval and x1 :: string
  assume "(x1, x2) \<in> set (Object_entries obj)" and "walked x2"
  then show "((m, x2), (m, obj)) \<in> measure (\<lambda>(m, obj). size obj)"
    by (simp add: walked_entry_smaller)
next
  fix m :: mappings and obj x :: jsval
  assume "x \<in> set (elements obj)"
  then show "((m, x), (m, obj)) \<in> measure (\<lambda>(m, obj). size obj)"
    by (simp add: element_smaller)
qed

text \<open>
  \<^verbatim>\<open>objectToArray(obj)\<close>, the same text in the three classes (lines 108 to 119): the
  loop pushes every value, a value of type \<^verbatim>\<open>'object'\<close> after
  \<^verbatim>\<open>objectToTableCasing\<close>.
\<close>

fun pushEntries :: "(jsval \<Rightarrow> jsval) \<Rightarrow> entries \<Rightarrow> jsval list \<Rightarrow> jsval list" where
  "pushEntries conv [] Output = Output"
| "pushEntries conv ((key, value) # rest) Output =
     pushEntries conv rest
       (if typeof value = ''object'' then Output @ [conv value] else Output @ [value])"

fun objectToArray :: "mappings \<Rightarrow> jsval \<Rightarrow> jsval list" where
  "objectToArray m obj =
     (if typeof obj \<noteq> ''object'' \<or> obj = JNull then (if obj = JNull then [] else [obj])
      else pushEntries (objectToTableCasing m) (Object_entries obj) [])"

subsection \<open>Documents with shared and cyclic references\<close>

text \<open>
  A tree cannot refer to itself. Where that matters, objects live in a store: a value is a
  primitive or a reference, and the store gives the object behind each reference. The
  conversion below is the same text of \<^verbatim>\<open>objectToTableCasing\<close> read over a store. It
  builds its result from fresh objects, so the result is a tree.

  Every call of the method takes a frame of the engine's call stack. The argument
  \<open>depth\<close> is the number of frames the stack still has room for; a call that finds no
  room ends in the engine's \<^verbatim>\<open>RangeError\<close> (maximum call stack size exceeded), and an
  error raised inside the loop or inside \<^verbatim>\<open>map\<close> leaves the method at once. The module
  has no \<^verbatim>\<open>throw\<close> of its own: \<open>StructuralError\<close> is the error kind the
  specification names, and no equation below produces it.
\<close>

datatype hval =
    HUndefined
  | HNull
  | HBoolean bool
  | HNumber int
  | HString string
  | HRef nat

text \<open>
  The objects of the store. A \<^verbatim>\<open>Date\<close>, a \<^verbatim>\<open>Long\<close> and an array can carry
  own properties beyond what makes them one (\<^verbatim>\<open>d.self = d\<close>): their last argument.
\<close>

datatype hobj =
    HDate int "(string \<times> hval) list"
  | HLong int "(string \<times> hval) list"
  | HArray "hval list" "(string \<times> hval) list"
  | HObject "(string \<times> hval) list"

type_synonym heap = "nat \<Rightarrow> hobj"

datatype error = RangeError | StructuralError

fun typeof_h :: "hval \<Rightarrow> string" where
  "typeof_h HUndefined = ''undefined''"
| "typeof_h HNull = ''object''"
| "typeof_h (HBoolean b) = ''boolean''"
| "typeof_h (HNumber n) = ''number''"
| "typeof_h (HString s) = ''string''"
| "typeof_h (HRef a) = ''object''"

fun instanceof_Date_h :: "heap \<Rightarrow> hval \<Rightarrow> bool" where
  "instanceof_Date_h h (HRef a) = (case h a of HDate t ps \<Rightarrow> True | _ \<Rightarrow> False)"
| "instanceof_Date_h h v = False"

fun instanceof_Long_h :: "heap \<Rightarrow> hval \<Rightarrow> bool" where
  "instanceof_Long_h h (HRef a) = (case h a of HLong v ps \<Rightarrow> True | _ \<Rightarrow> False)"
| "instanceof_Long_h h v = False"

fun Array_isArray_h :: "heap \<Rightarrow> hval \<Rightarrow> bool" where
  "Array_isArray_h h (HRef a) = (case h a of HArray xs ps \<Rightarrow> True | _ \<Rightarrow> False)"
| "Array_isArray_h h v = False"

fun elements_h :: "heap \<Rightarrow> hval \<Rightarrow> hval list" where
  "elements_h h (HRef a) = (case h a of HArray xs ps \<Rightarrow> xs | _ \<Rightarrow> [])"
| "elements_h h v = []"

fun Object_entries_h :: "heap \<Rightarrow> hval \<Rightarrow> (string \<times> hval) list" where
  "Object_entries_h h (HRef a) =
     (case h a of
        HObject es \<Rightarrow> es
      | HArray xs ps \<Rightarrow> mapIndex (\<lambda>x i. (decimalNat i, x)) xs @ ps
      | HLong v ps \<Rightarrow> [(''low'', HNumber (lowBits v)), (''high'', HNumber (highBits v)),
                      (''unsigned'', HBoolean False)] @ ps
      | HDate t ps \<Rightarrow> ps)"
| "Object_entries_h h v = []"

text \<open>
  A value that is returned or assigned as it is: a primitive, a \<^verbatim>\<open>Date\<close> or a
  \<^verbatim>\<open>Long\<close>; the result shows a \<^verbatim>\<open>Date\<close> or a \<^verbatim>\<open>Long\<close> by its value.
  No equation below applies it to an array or a plain object.
\<close>

fun leafValue :: "heap \<Rightarrow> hval \<Rightarrow> jsval" where
  "leafValue h HUndefined = JUndefined"
| "leafValue h HNull = JNull"
| "leafValue h (HBoolean b) = JBoolean b"
| "leafValue h (HNumber n) = JNumber n"
| "leafValue h (HString s) = JString s"
| "leafValue h (HRef a) =
     (case h a of HDate t ps \<Rightarrow> JDate t | HLong v ps \<Rightarrow> JLong v
      | HArray xs ps \<Rightarrow> JArray [] | HObject es \<Rightarrow> JObject [])"

fun forEntries_h ::
  "heap \<Rightarrow> (string \<Rightarrow> string) \<Rightarrow> (jsval \<Rightarrow> jsval) \<Rightarrow> (hval \<Rightarrow> error + jsval) \<Rightarrow>
   (string \<times> hval) list \<Rightarrow> entries \<Rightarrow> error + entries"
where
  "forEntries_h h name leaf recur [] newObject = Inr newObject"
| "forEntries_h h name leaf recur ((key, value) # rest) newObject =
     (if instanceof_Date_h h value \<or> value = HNull \<or> instanceof_Long_h h value
      then forEntries_h h name leaf recur rest
             (assignProperty newObject (name key) (leaf (leafValue h value)))
      else if typeof_h value = ''object''
      then (case recur value of
              Inl e \<Rightarrow> Inl e
            | Inr r \<Rightarrow> forEntries_h h name leaf recur rest
                        (assignProperty newObject (name key) r))
      else forEntries_h h name leaf recur rest
             (assignProperty newObject (name key) (leafValue h value)))"

fun mapElements_h :: "(hval \<Rightarrow> error + jsval) \<Rightarrow> hval list \<Rightarrow> error + jsval list" where
  "mapElements_h recur [] = Inr []"
| "mapElements_h recur (x # xs) =
     (case recur x of
        Inl e \<Rightarrow> Inl e
      | Inr r \<Rightarrow> (case mapElements_h recur xs of Inl e \<Rightarrow> Inl e | Inr rs \<Rightarrow> Inr (r # rs)))"

fun objectToTableCasing_h :: "mappings \<Rightarrow> heap \<Rightarrow> nat \<Rightarrow> hval \<Rightarrow> error + jsval" where
  "objectToTableCasing_h m h 0 obj = Inl RangeError"
| "objectToTableCasing_h m h (Suc depth) obj =
     (if typeof_h obj \<noteq> ''object'' \<or> obj = HNull then Inr (leafValue h obj)
      else if \<not> Array_isArray_h h obj
      then (case forEntries_h h (getColumnName m) (tableLeaf m)
                  (objectToTableCasing_h m h depth) (Object_entries_h h obj) [] of
              Inl e \<Rightarrow> Inl e
            | Inr newObject \<Rightarrow> Inr (JObject newObject))
      else if Array_isArray_h h obj
      then (case mapElements_h (objectToTableCasing_h m h depth) (elements_h h obj) of
              Inl e \<Rightarrow> Inl e
            | Inr xs \<Rightarrow> Inr (JArray xs))
      else Inr (leafValue h obj))"

text \<open>
  The calls one call of \<^verbatim>\<open>objectToTableCasing(obj)\<close> makes to itself: for an array
  one for every element (line 163), otherwise one for every property value that reaches
  the second branch of the loop (line 155). \<open>calls h obj v\<close> says that the call for
  \<open>obj\<close> calls the method for \<open>v\<close>. A structure is cyclic for the method when
  these calls lead from a value back to that value.
\<close>

definition walked_h :: "heap \<Rightarrow> hval \<Rightarrow> bool" where
  "walked_h h value =
     (\<not> (instanceof_Date_h h value \<or> value = HNull \<or> instanceof_Long_h h value)
      \<and> typeof_h value = ''object'')"

fun callees :: "heap \<Rightarrow> hval \<Rightarrow> hval list" where
  "callees h obj =
     (if typeof_h obj \<noteq> ''object'' \<or> obj = HNull then []
      else if \<not> Array_isArray_h h obj
      then filter (walked_h h) (map snd (Object_entries_h h obj))
      else elements_h h obj)"

fun calls :: "heap \<Rightarrow> hval \<Rightarrow> hval \<Rightarrow> bool" where
  "calls h obj v = (v \<in> set (callees h obj))"

text \<open>
  Stores: \<^verbatim>\<open>const o = {}; o.self = o;\<close> at address 0; an object at address 0 and
  an array at address 1 that hold each other, \<^verbatim>\<open>o.next = [o]\<close>; an array that is
  its own element, \<^verbatim>\<open>a = []; a.push(a)\<close>; a \<^verbatim>\<open>Date\<close> and an array that hold
  themselves as a property, \<^verbatim>\<open>d.self = d\<close>; and the nested document
  \<^verbatim>\<open>{ userId: 1, address: { zipCode: "X" } }\<close> with the outer object at address 0.
\<close>

definition selfReferencing :: heap where
  "selfReferencing = (\<lambda>a. HObject [(''self'', HRef 0)])"

definition objectAndArray :: heap where
  "objectAndArray =
     (\<lambda>a. if a = 0 then HObject [(''next'', HRef 1)] else HArray [HRef 0] [])"

definition selfContainingArray :: heap where
  "selfContainingArray = (\<lambda>a. HArray [HRef 0] [])"

definition dateHoldingItself :: heap where
  "dateHoldingItself = (\<lambda>a. HDate 0 [(''self'', HRef 0)])"

definition arrayHoldingItself :: heap where
  "arrayHoldingItself = (\<lambda>a. HArray [HNumber 1] [(''self'', HRef 0)])"

definition nestedDocument :: heap where
  "nestedDocument =
     (\<lambda>a. if a = 0 then HObject [(''userId'', HNumber 1), (''address'', HRef 1)]
          else HObject [(''zipCode'', HString ''X'')])"

subsection \<open>The statements of the specification, as definitions\<close>

text \<open>
  The snake-case step described by positions: \<open>sep s i\<close> says whether a separator
  stands before the character at position \<open>i\<close> of \<open>s\<close>.
\<close>

definition withSeparators :: "(string \<Rightarrow> nat \<Rightarrow> bool) \<Rightarrow> string \<Rightarrow> string" where
  "withSeparators sep s =
     concat (map (\<lambda>i. (if sep s i then ''_'' else []) @ [s ! i]) [0..<length s])"

text \<open>
  The positions the specification names: an uppercase letter preceded by a lowercase
  letter, or followed by a lowercase letter when it is not the first character.
\<close>

definition claimedSeparator :: "string \<Rightarrow> nat \<Rightarrow> bool" where
  "claimedSeparator s i =
     (isUpperAZ (s ! i) \<and>
      ((0 < i \<and> isLowerAZ (s ! (i - 1))) \<or>
       (0 < i \<and> Suc i < length s \<and> isLowerAZ (s ! Suc i))))"

text \<open>The positions of the code: every uppercase letter but one at the very start.\<close>

definition upperNotFirst :: "string \<Rightarrow> nat \<Rightarrow> bool" where
  "upperNotFirst s i = (0 < i \<and> isUpperAZ (s ! i))"

text \<open>A string matches a reserved word when the two agree up to the case of letters.\<close>

definition reservedIgnoringCase :: "string \<Rightarrow> bool" where
  "reservedIgnoringCase s = list_ex (\<lambda>w. toLowerCase w = toLowerCase s) ReservedWordsUpper"

text \<open>
  Splitting on underscores, said directly: the first segment is what stands before the
  first underscore, the other segments are those of what follows it; a string with no
  underscore is one segment.
\<close>

function segments :: "string \<Rightarrow> string list" where
  "segments s =
     (if CHR ''_'' \<in> set s
      then takeWhile (\<lambda>c. c \<noteq> CHR ''_'') s # segments (tl (dropWhile (\<lambda>c. c \<noteq> CHR ''_'') s))
      else [s])"
  by pat_completeness auto
termination
proof (relation "measure length")
  show "wf (measure length)" by simp
next
  fix s :: string
  assume "CHR ''_'' \<in> set s"
  then have "dropWhile (\<lambda>c. c \<noteq> CHR ''_'') s \<noteq> []" by simp
  then have "length (tl (dropWhile (\<lambda>c. c \<noteq> CHR ''_'') s))
             < length (dropWhile (\<lambda>c. c \<noteq> CHR ''_'') s)"
    by simp
  also have "\<dots> \<le> length s" by (rule length_dropWhile_le)
  finally show "(tl (dropWhile (\<lambda>c. c \<noteq> CHR ''_'') s), s) \<in> measure length" by simp
qed

declare segments.simps [simp del]

text \<open>A segment with its first character upper-cased; the empty segment stays empty.\<close>

fun upperFirst :: "string \<Rightarrow> string" where
  "upperFirst [] = []"
| "upperFirst (c # cs) = upperChar c # cs"

text \<open>
  The camel variant: first segment unchanged, every later segment with its first
  character upper-cased, no separator. The pascal variant: every segment so.
\<close>

definition camelCase_spec :: "string \<Rightarrow> string" where
  "camelCase_spec s =
     (case segments s of [] \<Rightarrow> [] | first # rest \<Rightarrow> first @ concat (map upperFirst rest))"

definition pascalCase_spec :: "string \<Rightarrow> string" where
  "pascalCase_spec s = concat (map upperFirst (segments s))"

text \<open>Property names made of ASCII letters, and the case of their first letter.\<close>

definition isLetter :: "char \<Rightarrow> bool" where
  "isLetter c = (isUpperAZ c \<or> isLowerAZ c)"

fun firstIs :: "(char \<Rightarrow> bool) \<Rightarrow> string \<Rightarrow> bool" where
  "firstIs P [] = False"
| "firstIs P (c # cs) = P c"

text \<open>Two auxiliary readings of the snake-case step, used in the proofs.\<close>

definition underscoreBeforeUpper :: "string \<Rightarrow> string" where
  "underscoreBeforeUpper cs = concat (map (\<lambda>c. (if isUpperAZ c then ''_'' else []) @ [c]) cs)"

definition snakeTail :: "string \<Rightarrow> string" where
  "snakeTail ds = toLowerCase (underscoreBeforeUpper ds)"

section \<open>Properties\<close>

subsection \<open>Characters, joining and evaluation\<close>

lemma charCode_char_of: "n < 256 \<Longrightarrow> charCode (char_of n) = n"
  by (simp add: charCode_def)

lemma char_of_charCode: "char_of (charCode c) = c"
  by (simp add: charCode_def)

lemma charCode_underscore: "charCode (CHR ''_'') = 95"
  by (simp add: charCode_def)

lemma lowerChar_not_upper: "\<not> isUpperAZ (lowerChar c)"
  by (auto simp: lowerChar_def isUpperAZ_def charCode_char_of)

lemma lowerChar_idem: "lowerChar (lowerChar c) = lowerChar c"
  using lowerChar_not_upper [of c] by (simp add: lowerChar_def)

lemma toLowerCase_idem: "toLowerCase (toLowerCase s) = toLowerCase s"
  by (simp add: toLowerCase_def lowerChar_idem)

lemma upperChar_lowerChar: "isUpperAZ c \<Longrightarrow> upperChar (lowerChar c) = c"
  by (simp add: lowerChar_def upperChar_def isUpperAZ_def isLowerAZ_def charCode_char_of
      char_of_charCode)

lemma lowerChar_lower: "isLowerAZ c \<Longrightarrow> lowerChar c = c"
  by (simp add: lowerChar_def isUpperAZ_def isLowerAZ_def)

lemma lower_not_underscore: "isLowerAZ c \<Longrightarrow> c \<noteq> CHR ''_''"
  by (auto simp: isLowerAZ_def charCode_underscore)

lemma lowerChar_upper_not_underscore: "isUpperAZ c \<Longrightarrow> lowerChar c \<noteq> CHR ''_''"
proof
  assume u: "isUpperAZ c" and e: "lowerChar c = CHR ''_''"
  from u have "charCode (lowerChar c) = charCode c + 32"
    by (simp add: lowerChar_def isUpperAZ_def charCode_char_of)
  with e u show False
    by (simp add: charCode_underscore isUpperAZ_def)
qed

lemma letter_lowerChar_not_underscore: "isLetter d \<Longrightarrow> lowerChar d \<noteq> CHR ''_''"
  using lowerChar_upper_not_underscore [of d] lower_not_underscore [of d] lowerChar_lower [of d]
  by (auto simp: isLetter_def)

lemma splitUpperFrom_nonempty: "splitUpperFrom cur cs \<noteq> []"
  by (induction cs arbitrary: cur) auto

lemma join_Cons: "ws \<noteq> [] \<Longrightarrow> join sep (w # ws) = w @ sep @ join sep ws"
  by (cases ws) auto

lemma join_empty_sep: "join [] ws = concat ws"
  by (induction "[] :: string" ws rule: join.induct) auto

text \<open>Facts for evaluating the definitions on literals.\<close>

lemmas string_eval =
  toLowerCase_def toUpperCase_def lowerChar_def upperChar_def isUpperAZ_def isLowerAZ_def
  charCode_def char_of_def bit_0 bit_Suc

lemma ReservedWords_eval: "ReservedWords =
    [''add'', ''allow'', ''alter'', ''and'', ''apply'', ''asc'', ''authorize'', ''batch'',
     ''begin'', ''by'', ''columnfamily'', ''create'', ''delete'', ''desc'', ''describe'',
     ''drop'', ''entries'', ''execute'', ''from'', ''full'', ''grant'', ''if'', ''in'',
     ''index'', ''infinity'', ''insert'', ''into'', ''keyspace'', ''limit'', ''modify'',
     ''nan'', ''norecursive'', ''not'', ''null'', ''of'', ''on'', ''or'', ''order'',
     ''primary'', ''rename'', ''replace'', ''revoke'', ''schema'', ''select'', ''set'',
     ''table'', ''to'', ''token'', ''truncate'', ''unlogged'', ''update'', ''use'',
     ''using'', ''view'', ''where'', ''with'']"
  by (simp add: ReservedWords_def ReservedWordsUpper_def string_eval)

lemmas name_eval =
  underscoreColumnName_def splitJoinLower_def splitBeforeUpper_def splitUnderscore_def
  mapIndex_def capitalize_def charAt0_def slice1_def ReservedWords_eval

lemmas walk_eval = assignProperty_def isArrayIndex_def isDigit_def

lemmas declared_eval =
  snakeCaseConditions_def UpperCaseLetters_def lowerCaseLetters_def Lowercase_def

subsection \<open>Property name to column name: where the separators stand\<close>

lemma join_splitUpperFrom:
  "cur \<noteq> [] \<Longrightarrow> join ''_'' (splitUpperFrom cur cs) = cur @ underscoreBeforeUpper cs"
proof (induction cs arbitrary: cur)
  case Nil
  then show ?case by (simp add: underscoreBeforeUpper_def)
next
  case (Cons c cs)
  show ?case
  proof (cases "isUpperAZ c")
    case True
    have "join ''_'' (splitUpperFrom cur (c # cs))
          = cur @ ''_'' @ join ''_'' (splitUpperFrom [c] cs)"
      using True Cons.prems by (simp add: join_Cons splitUpperFrom_nonempty)
    also have "join ''_'' (splitUpperFrom [c] cs) = [c] @ underscoreBeforeUpper cs"
      by (rule Cons.IH) simp
    finally show ?thesis using True by (simp add: underscoreBeforeUpper_def)
  next
    case False
    have "join ''_'' (splitUpperFrom cur (c # cs)) = join ''_'' (splitUpperFrom (cur @ [c]) cs)"
      using False by simp
    also have "\<dots> = (cur @ [c]) @ underscoreBeforeUpper cs"
      by (rule Cons.IH) simp
    finally show ?thesis using False by (simp add: underscoreBeforeUpper_def)
  qed
qed

lemma join_splitBeforeUpper:
  "join ''_'' (splitBeforeUpper s)
   = (case s of [] \<Rightarrow> [] | c # cs \<Rightarrow> c # underscoreBeforeUpper cs)"
proof (cases s)
  case Nil
  then show ?thesis by (simp add: splitBeforeUpper_def)
next
  case (Cons c cs)
  have "join ''_'' (splitUpperFrom [c] cs) = [c] @ underscoreBeforeUpper cs"
    by (rule join_splitUpperFrom) simp
  then show ?thesis using Cons by (simp add: splitBeforeUpper_def)
qed

lemma withSeparators_upperNotFirst:
  "withSeparators upperNotFirst s
   = (case s of [] \<Rightarrow> [] | c # cs \<Rightarrow> c # underscoreBeforeUpper cs)"
proof (cases s)
  case Nil
  then show ?thesis by (simp add: withSeparators_def)
next
  case (Cons c cs)
  have upt: "[0..<length (c # cs)] = 0 # map Suc [0..<length cs]"
    unfolding length_Cons map_Suc_upt by (rule upt_conv_Cons) simp
  have "map (\<lambda>i. (if isUpperAZ (cs ! i) then ''_'' else []) @ [cs ! i]) [0..<length cs]
        = map (\<lambda>c. (if isUpperAZ c then ''_'' else []) @ [c]) cs"
    by (rule nth_equalityI) simp_all
  then have "withSeparators upperNotFirst (c # cs) = c # underscoreBeforeUpper cs"
    unfolding withSeparators_def upt
    by (simp add: upperNotFirst_def underscoreBeforeUpper_def comp_def)
  then show ?thesis using Cons by simp
qed

lemma splitJoinLower_separators:
  "splitJoinLower s = toLowerCase (withSeparators upperNotFirst s)"
  by (simp add: splitJoinLower_def join_splitBeforeUpper withSeparators_upperNotFirst)

text \<open>
  What the runtime does, for every name: \<^verbatim>\<open>getColumnName\<close> of both underscore
  classes puts a separator before every letter of \<^verbatim>\<open>[A-Z]\<close> that is not the first
  character of the name, also between the members of a run of uppercase letters.
\<close>

lemma getColumnName_separators:
  "getColumnName (UnderscoreCqlToCamelCaseMappings f) s =
     (let r = toLowerCase (withSeparators upperNotFirst s)
      in if r \<in> set ReservedWords then r @ ''_'' else r)
   \<and> getColumnName (UnderscoreCqlToPascalCaseMappings f) s =
     (let r = toLowerCase (withSeparators upperNotFirst s)
      in if r \<in> set ReservedWords then r @ ''_'' else r)"
  by (simp add: underscoreColumnName_def splitJoinLower_separators)

text \<open>
  C1 at the property name \<^verbatim>\<open>userID\<close>. The letter \<^verbatim>\<open>D\<close> (position 5) follows
  an uppercase letter and is the last character, so the rule of previous, current and
  next character puts no separator before it: the positions the specification names
  give \<^verbatim>\<open>user_id\<close>, and so does the declared type \<^verbatim>\<open>snakeCase\<close>. The runtime
  of both underscore classes gives \<^verbatim>\<open>user_i_d\<close>.
\<close>

theorem getColumnName_uppercase_run:
  "getColumnName (UnderscoreCqlToCamelCaseMappings False) ''userID'' = ''user_i_d''
   \<and> getColumnName (UnderscoreCqlToPascalCaseMappings False) ''userID'' = ''user_i_d''
   \<and> snakeCase ''userID'' [] = ''user_id''
   \<and> toLowerCase (withSeparators claimedSeparator ''userID'') = ''user_id''
   \<and> claimedSeparator ''userID'' 5 = False"
  by (simp add: name_eval string_eval declared_eval withSeparators_def claimedSeparator_def
      upt_conv_Cons)

subsection \<open>The nested document, both ways\<close>

text \<open>
  C2. With the camel class, \<^verbatim>\<open>objectToTableCasing\<close> turns
  \<^verbatim>\<open>{ userId: 1, address: { zipCode: "X" } }\<close> into
  \<^verbatim>\<open>{ user_id: 1, address: { zip_code: "X" } }\<close>, and \<^verbatim>\<open>objectToFixedCasing\<close>
  turns that result back into the first document, whatever the flag.
\<close>

theorem nested_conversion:
  "objectToTableCasing (UnderscoreCqlToCamelCaseMappings f)
     (JObject [(''userId'', JNumber 1), (''address'', JObject [(''zipCode'', JString ''X'')])])
   = JObject [(''user_id'', JNumber 1), (''address'', JObject [(''zip_code'', JString ''X'')])]
   \<and> objectToFixedCasing (UnderscoreCqlToCamelCaseMappings f)
     (JObject [(''user_id'', JNumber 1), (''address'', JObject [(''zip_code'', JString ''X'')])])
   = JObject [(''userId'', JNumber 1), (''address'', JObject [(''zipCode'', JString ''X'')])]"
  by (simp add: walk_eval name_eval string_eval)

subsection \<open>Long values and the flag\<close>

text \<open>
  C3 at the input \<^verbatim>\<open>{ total: Long(5) }\<close> with the flag set. The pascal class leaves
  the \<^verbatim>\<open>Long\<close> in place towards the table, where the camel class and the pascal
  class towards the document give the string \<^verbatim>\<open>"5"\<close>.
\<close>

theorem pascal_table_keeps_long:
  "objectToTableCasing (UnderscoreCqlToPascalCaseMappings True) (JObject [(''total'', JLong 5)])
     = JObject [(''total'', JLong 5)]
   \<and> objectToTableCasing (UnderscoreCqlToCamelCaseMappings True) (JObject [(''total'', JLong 5)])
     = JObject [(''total'', JString ''5'')]
   \<and> objectToFixedCasing (UnderscoreCqlToPascalCaseMappings True) (JObject [(''total'', JLong 5)])
     = JObject [(''Total'', JString ''5'')]
   \<and> objectToFixedCasing (UnderscoreCqlToCamelCaseMappings True) (JObject [(''total'', JLong 5)])
     = JObject [(''total'', JString ''5'')]"
  by (simp add: walk_eval name_eval string_eval decimalInt_def decimalNat.simps)

text \<open>
  With the flag off, a \<^verbatim>\<open>Long\<close> that is the value of a property stays as it is in
  both directions and in every class; a \<^verbatim>\<open>Long\<close> that is an element of an array is
  taken apart into its fields, flag or no flag.
\<close>

lemma long_property_flag_off:
  "objectToTableCasing (UnderscoreCqlToCamelCaseMappings False) (JObject [(''total'', JLong 5)])
     = JObject [(''total'', JLong 5)]
   \<and> objectToTableCasing (UnderscoreCqlToPascalCaseMappings False) (JObject [(''total'', JLong 5)])
     = JObject [(''total'', JLong 5)]
   \<and> objectToFixedCasing (UnderscoreCqlToCamelCaseMappings False) (JObject [(''total'', JLong 5)])
     = JObject [(''total'', JLong 5)]
   \<and> objectToFixedCasing (UnderscoreCqlToPascalCaseMappings False) (JObject [(''total'', JLong 5)])
     = JObject [(''Total'', JLong 5)]"
  by (simp add: walk_eval name_eval string_eval)

lemma long_in_array:
  "objectToTableCasing (UnderscoreCqlToCamelCaseMappings True)
     (JObject [(''totals'', JArray [JLong 5])])
   = JObject [(''totals'', JArray [JObject [(''low'', JNumber 5), (''high'', JNumber 0),
                                            (''unsigned'', JBoolean False)]])]"
  by (simp add: walk_eval name_eval string_eval lowBits_def highBits_def)

subsection \<open>Values that are not structures\<close>

text \<open>
  C4 at a \<^verbatim>\<open>Date\<close> and at a \<^verbatim>\<open>Long\<close>: in every class \<^verbatim>\<open>objectToTableCasing\<close>
  answers a \<^verbatim>\<open>Date\<close> with a new empty object, and \<^verbatim>\<open>Long(5)\<close> with a new object
  holding its three fields. The value itself does not come back.
\<close>

theorem table_casing_of_date:
  "objectToTableCasing m (JDate t) = JObject []
   \<and> objectToTableCasing m (JLong 5)
     = JObject [(''low'', JNumber 5), (''high'', JNumber 0), (''unsigned'', JBoolean False)]"
  by (cases m) (simp_all add: walk_eval name_eval string_eval lowBits_def highBits_def)

text \<open>What is not of type \<^verbatim>\<open>'object'\<close>, and \<^verbatim>\<open>null\<close>, does come back unchanged.\<close>

lemma table_casing_of_scalar:
  "typeof v \<noteq> ''object'' \<or> v = JNull \<Longrightarrow> objectToTableCasing m v = v"
  by simp

subsection \<open>The parameter list\<close>

text \<open>
  C5 at \<^verbatim>\<open>{ created: Date(0), n: 1, z: null }\<close>: the \<^verbatim>\<open>Date\<close> is of type
  \<^verbatim>\<open>'object'\<close>, goes through \<^verbatim>\<open>objectToTableCasing\<close> and arrives as an empty
  object. A \<^verbatim>\<open>Date\<close> given at top level yields the empty list and not the list of
  that \<^verbatim>\<open>Date\<close>. The answers for \<^verbatim>\<open>null\<close> and for \<^verbatim>\<open>5\<close> are the stated ones.
\<close>

theorem objectToArray_of_date:
  "objectToArray m (JObject [(''created'', JDate 0), (''n'', JNumber 1), (''z'', JNull)])
     = [JObject [], JNumber 1, JNull]
   \<and> objectToArray m (JDate 0) = []
   \<and> objectToArray m JNull = []
   \<and> objectToArray m (JNumber 5) = [JNumber 5]"
  by simp

subsection \<open>Column name to property name\<close>

lemma segments_nonempty: "segments s \<noteq> []"
  by (subst segments.simps) simp

lemma segments_Nil: "segments [] = [[]]"
  by (subst segments.simps) simp

lemma segments_underscore: "segments (CHR ''_'' # cs) = [] # segments cs"
  by (subst segments.simps) simp

lemma segments_other:
  assumes "c \<noteq> CHR ''_''"
  shows "segments (c # cs) = (c # hd (segments cs)) # tl (segments cs)"
proof (cases "CHR ''_'' \<in> set cs")
  case True
  have "segments (c # cs) =
        (c # takeWhile (\<lambda>c. c \<noteq> CHR ''_'') cs)
          # segments (tl (dropWhile (\<lambda>c. c \<noteq> CHR ''_'') cs))"
    using assms True by (subst segments.simps) simp
  moreover have "segments cs =
        takeWhile (\<lambda>c. c \<noteq> CHR ''_'') cs # segments (tl (dropWhile (\<lambda>c. c \<noteq> CHR ''_'') cs))"
    using True by (subst segments.simps) simp
  ultimately show ?thesis by simp
next
  case False
  have "segments (c # cs) = [c # cs]"
    using assms False by (subst segments.simps) simp
  moreover have "segments cs = [cs]"
    using False by (subst segments.simps) simp
  ultimately show ?thesis by simp
qed

lemma splitCharFrom_segments:
  "splitCharFrom (CHR ''_'') cur cs = (cur @ hd (segments cs)) # tl (segments cs)"
proof (induction cs arbitrary: cur)
  case Nil
  then show ?case by (simp add: segments_Nil)
next
  case (Cons c cs)
  show ?case
  proof (cases "c = CHR ''_''")
    case True
    then show ?thesis
      using segments_nonempty [of cs] by (simp add: Cons.IH segments_underscore)
  next
    case False
    then show ?thesis by (simp add: Cons.IH segments_other)
  qed
qed

lemma splitUnderscore_segments: "splitUnderscore s = segments s"
  using segments_nonempty [of s] by (simp add: splitUnderscore_def splitCharFrom_segments)

lemma capitalize_upperFirst: "capitalize w = upperFirst w"
  by (cases w) (simp_all add: capitalize_def charAt0_def slice1_def toUpperCase_def)

lemma capitalize_eq: "capitalize = upperFirst"
  by (rule ext) (rule capitalize_upperFirst)

lemma mapIndexFrom_positive:
  "0 < i \<Longrightarrow> mapIndexFrom i (\<lambda>word index. if index = 0 then word else g word) ws = map g ws"
  by (induction ws arbitrary: i) simp_all

lemma camel_join:
  "getPropertyName (UnderscoreCqlToCamelCaseMappings f) s =
     (case splitUnderscore s of [] \<Rightarrow> [] | w # ws \<Rightarrow> w @ concat (map capitalize ws))"
  by (cases "splitUnderscore s")
     (simp_all add: mapIndex_def join_empty_sep mapIndexFrom_positive)

lemma pascal_join:
  "getPropertyName (UnderscoreCqlToPascalCaseMappings f) s
   = concat (map capitalize (splitUnderscore s))"
  by (simp add: join_empty_sep)

text \<open>
  C6. \<^verbatim>\<open>getPropertyName\<close> of the camel class splits the column name on underscores,
  leaves the first segment unchanged, upper-cases the first character of every later
  segment and concatenates with no separator; the pascal class upper-cases the first
  character of every segment, the first included. So \<^verbatim>\<open>user_id\<close> becomes
  \<^verbatim>\<open>userId\<close> (camel) and \<^verbatim>\<open>UserId\<close> (pascal), and \<^verbatim>\<open>getColumnName\<close> turns
  \<^verbatim>\<open>userId\<close> into \<^verbatim>\<open>user_id\<close>.
\<close>

theorem getPropertyName_segments:
  "getPropertyName (UnderscoreCqlToCamelCaseMappings f) s = camelCase_spec s
   \<and> getPropertyName (UnderscoreCqlToPascalCaseMappings f) s = pascalCase_spec s
   \<and> getPropertyName (UnderscoreCqlToCamelCaseMappings f) ''user_id'' = ''userId''
   \<and> getPropertyName (UnderscoreCqlToPascalCaseMappings f) ''user_id'' = ''UserId''
   \<and> getColumnName (UnderscoreCqlToCamelCaseMappings f) ''userId'' = ''user_id''
   \<and> getColumnName (UnderscoreCqlToPascalCaseMappings f) ''userId'' = ''user_id''"
proof -
  have general:
    "getPropertyName (UnderscoreCqlToCamelCaseMappings f) s = camelCase_spec s"
    "getPropertyName (UnderscoreCqlToPascalCaseMappings f) s = pascalCase_spec s"
    by (simp_all only: camel_join pascal_join camelCase_spec_def pascalCase_spec_def
        splitUnderscore_segments capitalize_eq)
  have examples:
    "getPropertyName (UnderscoreCqlToCamelCaseMappings f) ''user_id'' = ''userId''"
    "getPropertyName (UnderscoreCqlToPascalCaseMappings f) ''user_id'' = ''UserId''"
    "getColumnName (UnderscoreCqlToCamelCaseMappings f) ''userId'' = ''user_id''"
    "getColumnName (UnderscoreCqlToPascalCaseMappings f) ''userId'' = ''user_id''"
    by (simp_all add: name_eval string_eval)
  from general examples show ?thesis by (intro conjI)
qed

subsection \<open>Reserved words\<close>

lemma toLowerCase_splitJoinLower: "toLowerCase (splitJoinLower x) = splitJoinLower x"
  by (simp add: splitJoinLower_def toLowerCase_idem)

lemma bex_eq_commute: "(\<exists>w\<in>A. y = f w) = (\<exists>w\<in>A. f w = y)"
  by blast

lemma member_ReservedWords:
  "(splitJoinLower x \<in> set ReservedWords) = reservedIgnoringCase (splitJoinLower x)"
proof -
  have "(splitJoinLower x \<in> set ReservedWords)
        = (\<exists>w\<in>set ReservedWordsUpper. toLowerCase w = splitJoinLower x)"
    unfolding ReservedWords_def set_map image_iff by (rule bex_eq_commute)
  then show ?thesis
    by (simp add: reservedIgnoringCase_def list_ex_iff toLowerCase_splitJoinLower)
qed

lemma splitUpperFrom_no_upper:
  "list_all (\<lambda>c. \<not> isUpperAZ c) cs \<Longrightarrow> splitUpperFrom cur cs = [cur @ cs]"
  by (induction cs arbitrary: cur) auto

lemma splitJoinLower_no_inner_upper:
  "list_all (\<lambda>c. \<not> isUpperAZ c) (tl x) \<Longrightarrow> splitJoinLower x = toLowerCase x"
proof (cases x)
  case Nil
  then show ?thesis by (simp add: splitJoinLower_def splitBeforeUpper_def)
next
  case (Cons c cs)
  assume "list_all (\<lambda>c. \<not> isUpperAZ c) (tl x)"
  with Cons have "splitUpperFrom [c] cs = [[c] @ cs]"
    by (simp add: splitUpperFrom_no_upper)
  with Cons show ?thesis by (simp add: splitJoinLower_def splitBeforeUpper_def)
qed

text \<open>
  On the names with no uppercase letter after the first character the declared snake
  case is the lowercased name as well.
\<close>

lemma snakeCase_all_lower:
  "list_all (\<lambda>c. \<not> isUpperAZ c) s \<Longrightarrow> snakeCase s P = toLowerCase s"
proof (induction s P rule: snakeCase.induct)
  case (1 S1 S2 S3 P)
  then show ?case
    by (simp add: snakeCaseConditions_def UpperCaseLetters_def Lowercase_def toLowerCase_def)
qed (simp_all add: Lowercase_def)

lemma snakeCase_no_inner_upper:
  "list_all (\<lambda>c. \<not> isUpperAZ c) (tl x) \<Longrightarrow> snakeCase x [] = toLowerCase x"
proof (cases x)
  case Nil
  then show ?thesis by (simp add: Lowercase_def)
next
  case (Cons c cs)
  assume "list_all (\<lambda>c. \<not> isUpperAZ c) (tl x)"
  with Cons have "\<And>P. snakeCase cs P = toLowerCase cs"
    by (simp add: snakeCase_all_lower)
  with Cons show ?thesis
    by (cases cs) (simp_all add: snakeCaseConditions_def Lowercase_def toLowerCase_def)
qed

text \<open>
  C7, as amended. After the snake-case step \<^verbatim>\<open>getColumnName\<close> of the underscore
  classes appends one underscore exactly when the snake-cased name matches a reserved
  word up to case, and returns the snake-cased name unchanged otherwise. A property name
  that lowercases to \<^verbatim>\<open>select\<close> and has no uppercase letter after its first
  character, where no separator is due, therefore gives \<^verbatim>\<open>select_\<close>. Nothing is
  said of names with a run of uppercase letters, where the runtime and the declared
  snake case part.
\<close>

theorem reserved_word_escaping:
  "getColumnName (UnderscoreCqlToCamelCaseMappings f) x =
     (if reservedIgnoringCase (splitJoinLower x) then splitJoinLower x @ ''_'' else splitJoinLower x)
   \<and> getColumnName (UnderscoreCqlToPascalCaseMappings f) x =
     (if reservedIgnoringCase (splitJoinLower x) then splitJoinLower x @ ''_'' else splitJoinLower x)
   \<and> (toLowerCase x = ''select'' \<and> list_all (\<lambda>c. \<not> isUpperAZ c) (tl x) \<longrightarrow>
        getColumnName (UnderscoreCqlToCamelCaseMappings f) x = ''select_''
        \<and> getColumnName (UnderscoreCqlToPascalCaseMappings f) x = ''select_'')"
proof -
  have general: "underscoreColumnName x =
     (if reservedIgnoringCase (splitJoinLower x) then splitJoinLower x @ ''_'' else splitJoinLower x)"
    using member_ReservedWords [of x] by (simp add: underscoreColumnName_def)
  have "underscoreColumnName x = ''select_''"
    if "toLowerCase x = ''select''" "list_all (\<lambda>c. \<not> isUpperAZ c) (tl x)"
  proof -
    from that have "splitJoinLower x = ''select''"
      by (simp add: splitJoinLower_no_inner_upper)
    then show ?thesis
      by (simp add: underscoreColumnName_def ReservedWords_eval)
  qed
  with general show ?thesis by simp
qed

theorem reserved_word_escaping_witness:
  "toLowerCase ''Select'' = ''select'' \<and> list_all (\<lambda>c. \<not> isUpperAZ c) (tl ''Select'')
   \<and> getColumnName (UnderscoreCqlToCamelCaseMappings False) ''Select'' = ''select_''
   \<and> getColumnName (UnderscoreCqlToPascalCaseMappings False) ''Select'' = ''select_''
   \<and> reservedIgnoringCase (splitJoinLower ''Select'')"
  using reserved_word_escaping [of False "''Select''"]
  by (simp add: string_eval reservedIgnoringCase_def ReservedWordsUpper_def splitJoinLower_def
      splitBeforeUpper_def)

text \<open>
  C7 as stated fails: \<^verbatim>\<open>sElect\<close> lowercases to \<^verbatim>\<open>select\<close>, and its
  \<^verbatim>\<open>E\<close> stands between two lowercase letters, so a separator is due before it
  under the runtime and under the declared snake case alike. The snake-cased name
  \<^verbatim>\<open>s_elect\<close> is no reserved word and is returned as it is.
\<close>

theorem lowercases_to_select_counterexample:
  "toLowerCase ''sElect'' = ''select''
   \<and> getColumnName (UnderscoreCqlToCamelCaseMappings False) ''sElect'' = ''s_elect''
   \<and> getColumnName (UnderscoreCqlToPascalCaseMappings False) ''sElect'' = ''s_elect''
   \<and> snakeCase ''sElect'' [] = ''s_elect''"
  by (simp add: name_eval string_eval declared_eval)

text \<open>
  At \<^verbatim>\<open>SELECT\<close> the declared snake case is \<^verbatim>\<open>select\<close>, a reserved word; the
  runtime splits the run of uppercase letters and appends nothing.
\<close>

lemma getColumnName_SELECT:
  "snakeCase ''SELECT'' [] = ''select''
   \<and> getColumnName (UnderscoreCqlToCamelCaseMappings False) ''SELECT'' = ''s_e_l_e_c_t''
   \<and> getColumnName (UnderscoreCqlToPascalCaseMappings False) ''SELECT'' = ''s_e_l_e_c_t''"
  by (simp add: name_eval string_eval declared_eval)

subsection \<open>Round trip on identifiers\<close>

lemma lowerChar_underscore: "lowerChar (CHR ''_'') = CHR ''_''"
  by (simp add: string_eval)

lemma snakeTail_Nil: "snakeTail [] = []"
  by (simp add: snakeTail_def underscoreBeforeUpper_def toLowerCase_def)

lemma snakeTail_Cons:
  "snakeTail (d # ds) =
     (if isUpperAZ d then CHR ''_'' # lowerChar d # snakeTail ds else lowerChar d # snakeTail ds)"
  by (simp add: snakeTail_def underscoreBeforeUpper_def toLowerCase_def lowerChar_underscore)

lemma splitJoinLower_Cons: "splitJoinLower (c # cs) = lowerChar c # snakeTail cs"
  by (simp add: splitJoinLower_def join_splitBeforeUpper snakeTail_def toLowerCase_def)

lemma capitalize_append: "cur \<noteq> [] \<Longrightarrow> capitalize (cur @ ds) = capitalize cur @ ds"
  by (cases cur) (simp_all add: capitalize_eq)

lemma pascal_segments_back:
  assumes "list_all isLetter ds" and "cur \<noteq> []" and "t = [] \<or> t = ''_''"
  shows "concat (map capitalize (splitCharFrom (CHR ''_'') cur (snakeTail ds @ t)))
         = capitalize cur @ ds"
  using assms
proof (induction ds arbitrary: cur)
  case Nil
  then show ?case by (auto simp: snakeTail_Nil capitalize_eq)
next
  case (Cons d ds)
  from Cons.prems have letter: "isLetter d" and rest: "list_all isLetter ds" by simp_all
  show ?case
  proof (cases "isUpperAZ d")
    case True
    have "concat (map capitalize (splitCharFrom (CHR ''_'') [lowerChar d] (snakeTail ds @ t)))
          = capitalize [lowerChar d] @ ds"
      using rest Cons.prems(3) by (intro Cons.IH) simp_all
    then show ?thesis
      using True letter_lowerChar_not_underscore [OF letter]
      by (simp add: snakeTail_Cons capitalize_eq upperChar_lowerChar)
  next
    case False
    with letter have low: "isLowerAZ d" by (simp add: isLetter_def)
    have "concat (map capitalize (splitCharFrom (CHR ''_'') (cur @ [d]) (snakeTail ds @ t)))
          = capitalize (cur @ [d]) @ ds"
      using rest Cons.prems(3) by (intro Cons.IH) simp_all
    then show ?thesis
      using False low Cons.prems(2) lower_not_underscore [OF low]
      by (simp add: snakeTail_Cons lowerChar_lower capitalize_append)
  qed
qed

lemma camel_segments_back:
  assumes "list_all isLetter ds" and "cur \<noteq> []" and "t = [] \<or> t = ''_''"
  shows "(case splitCharFrom (CHR ''_'') cur (snakeTail ds @ t) of
            [] \<Rightarrow> [] | w # ws \<Rightarrow> w @ concat (map capitalize ws)) = cur @ ds"
  using assms
proof (induction ds arbitrary: cur)
  case Nil
  then show ?case by (auto simp: snakeTail_Nil capitalize_eq)
next
  case (Cons d ds)
  from Cons.prems have letter: "isLetter d" and rest: "list_all isLetter ds" by simp_all
  show ?case
  proof (cases "isUpperAZ d")
    case True
    have "concat (map capitalize (splitCharFrom (CHR ''_'') [lowerChar d] (snakeTail ds @ t)))
          = capitalize [lowerChar d] @ ds"
      using rest Cons.prems(3) by (intro pascal_segments_back) simp_all
    then show ?thesis
      using True letter_lowerChar_not_underscore [OF letter]
      by (simp add: snakeTail_Cons capitalize_eq upperChar_lowerChar)
  next
    case False
    with letter have low: "isLowerAZ d" by (simp add: isLetter_def)
    have "(case splitCharFrom (CHR ''_'') (cur @ [d]) (snakeTail ds @ t) of
            [] \<Rightarrow> [] | w # ws \<Rightarrow> w @ concat (map capitalize ws)) = (cur @ [d]) @ ds"
      using rest Cons.prems(3) by (intro Cons.IH) simp_all
    then show ?thesis
      using False low lower_not_underscore [OF low]
      by (simp add: snakeTail_Cons lowerChar_lower)
  qed
qed

lemma underscoreColumnName_shape:
  "\<exists>t. (t = [] \<or> t = ''_'') \<and> underscoreColumnName (c # cs) = lowerChar c # snakeTail cs @ t"
  by (simp add: underscoreColumnName_def Let_def splitJoinLower_Cons)

text \<open>
  C8. For a property name \<open>x\<close> made of ASCII letters,
  \<^verbatim>\<open>getPropertyName(getColumnName(x))\<close> is \<open>x\<close> again in the variant that matches
  the name: the camel class for a name that starts with a lowercase letter, the pascal
  class for a name that starts with an uppercase letter. The statement needs neither an
  uppercase letter inside the name nor an exception for reserved words: the underscore
  appended to a reserved word only adds an empty last segment, which contributes
  nothing.
\<close>

theorem identifier_round_trip:
  "(list_all isLetter x \<and> firstIs isLowerAZ x \<longrightarrow>
      getPropertyName (UnderscoreCqlToCamelCaseMappings f)
        (getColumnName (UnderscoreCqlToCamelCaseMappings g) x) = x)
   \<and> (list_all isLetter x \<and> firstIs isUpperAZ x \<longrightarrow>
      getPropertyName (UnderscoreCqlToPascalCaseMappings f)
        (getColumnName (UnderscoreCqlToPascalCaseMappings g) x) = x)"
proof (cases x)
  case Nil
  then show ?thesis by simp
next
  case (Cons c cs)
  obtain t where t: "t = [] \<or> t = ''_''"
    and shape: "underscoreColumnName (c # cs) = lowerChar c # snakeTail cs @ t"
    using underscoreColumnName_shape by blast
  have camel: "getPropertyName (UnderscoreCqlToCamelCaseMappings f)
        (getColumnName (UnderscoreCqlToCamelCaseMappings g) x) = x"
    if "list_all isLetter x" "firstIs isLowerAZ x"
  proof -
    from that Cons have c: "isLowerAZ c" and cs: "list_all isLetter cs" by simp_all
    have "(case splitCharFrom (CHR ''_'') [c] (snakeTail cs @ t) of
            [] \<Rightarrow> [] | w # ws \<Rightarrow> w @ concat (map capitalize ws)) = [c] @ cs"
      using cs t by (intro camel_segments_back) simp_all
    moreover have "getPropertyName (UnderscoreCqlToCamelCaseMappings f)
        (getColumnName (UnderscoreCqlToCamelCaseMappings g) x)
        = (case splitCharFrom (CHR ''_'') [c] (snakeTail cs @ t) of
            [] \<Rightarrow> [] | w # ws \<Rightarrow> w @ concat (map capitalize ws))"
      unfolding camel_join getColumnName.simps Cons shape splitUnderscore_def
      using c lower_not_underscore [OF c] by (simp add: lowerChar_lower)
    ultimately show ?thesis using Cons by simp
  qed
  have pascal: "getPropertyName (UnderscoreCqlToPascalCaseMappings f)
        (getColumnName (UnderscoreCqlToPascalCaseMappings g) x) = x"
    if "list_all isLetter x" "firstIs isUpperAZ x"
  proof -
    from that Cons have c: "isUpperAZ c" and cs: "list_all isLetter cs" by simp_all
    have "concat (map capitalize (splitCharFrom (CHR ''_'') [lowerChar c] (snakeTail cs @ t)))
          = capitalize [lowerChar c] @ cs"
      using cs t by (intro pascal_segments_back) simp_all
    moreover have "getPropertyName (UnderscoreCqlToPascalCaseMappings f)
        (getColumnName (UnderscoreCqlToPascalCaseMappings g) x)
        = concat (map capitalize (splitCharFrom (CHR ''_'') [lowerChar c] (snakeTail cs @ t)))"
      unfolding pascal_join getColumnName.simps Cons shape splitUnderscore_def
      using lowerChar_upper_not_underscore [OF c] by simp
    ultimately show ?thesis
      using Cons c by (simp add: capitalize_eq upperChar_lowerChar)
  qed
  from camel pascal show ?thesis by blast
qed

theorem identifier_round_trip_witness:
  "list_all isLetter ''userId'' \<and> firstIs isLowerAZ ''userId''
   \<and> getPropertyName (UnderscoreCqlToCamelCaseMappings False)
        (getColumnName (UnderscoreCqlToCamelCaseMappings False) ''userId'') = ''userId''
   \<and> list_all isLetter ''UserId'' \<and> firstIs isUpperAZ ''UserId''
   \<and> getPropertyName (UnderscoreCqlToPascalCaseMappings False)
        (getColumnName (UnderscoreCqlToPascalCaseMappings False) ''UserId'') = ''UserId''"
  using identifier_round_trip [of "''userId''" False False]
    identifier_round_trip [of "''UserId''" False False]
  by (simp add: isLetter_def string_eval)

text \<open>
  In the other variant the first letter comes back in the other case, and a reserved
  word comes back as it was.
\<close>

lemma round_trip_other_variant:
  "getPropertyName (UnderscoreCqlToCamelCaseMappings False)
     (getColumnName (UnderscoreCqlToCamelCaseMappings False) ''UserId'') = ''userId''
   \<and> getPropertyName (UnderscoreCqlToPascalCaseMappings False)
     (getColumnName (UnderscoreCqlToPascalCaseMappings False) ''userId'') = ''UserId''
   \<and> getPropertyName (UnderscoreCqlToCamelCaseMappings False)
     (getColumnName (UnderscoreCqlToCamelCaseMappings False) ''select'') = ''select''"
  by (simp add: name_eval string_eval)

subsection \<open>Self-referencing input\<close>

lemma forEntries_h_errors:
  assumes "\<And>v e. recur v = Inl e \<Longrightarrow> e = RangeError"
  shows "forEntries_h h name leaf recur es acc = Inl e \<Longrightarrow> e = RangeError"
  using assms
  by (induction es arbitrary: acc) (auto split: if_splits sum.splits)

lemma mapElements_h_errors:
  assumes "\<And>v e. recur v = Inl e \<Longrightarrow> e = RangeError"
  shows "mapElements_h recur xs = Inl e \<Longrightarrow> e = RangeError"
  using assms
  by (induction xs arbitrary: e) (auto split: sum.splits)

lemma only_RangeError:
  "objectToTableCasing_h m h depth obj = Inl e \<Longrightarrow> e = RangeError"
proof (induction depth arbitrary: obj e)
  case 0
  then show ?case by simp
next
  case (Suc depth)
  have inner: "\<And>v e. objectToTableCasing_h m h depth v = Inl e \<Longrightarrow> e = RangeError"
    by (rule Suc.IH)
  from Suc.prems show ?case
    using forEntries_h_errors [OF inner] mapElements_h_errors [OF inner]
    by (auto split: if_splits sum.splits)
qed

lemma forEntries_h_stops:
  assumes "(key, value) \<in> set es"
    and "walked_h h value"
    and "recur value = Inl RangeError"
    and "\<And>v e. recur v = Inl e \<Longrightarrow> e = RangeError"
  shows "forEntries_h h name leaf recur es acc = Inl RangeError"
  using assms(1)
proof (induction es arbitrary: acc)
  case Nil
  then show ?case by simp
next
  case (Cons entry es)
  obtain k v where entry: "entry = (k, v)" by (cases entry)
  show ?case
  proof (cases "entry = (key, value)")
    case True
    with entry assms(2,3) show ?thesis by (simp add: walked_h_def)
  next
    case False
    with Cons.prems have "(key, value) \<in> set es" by simp
    then have ih: "\<And>acc. forEntries_h h name leaf recur es acc = Inl RangeError"
      by (rule Cons.IH)
    show ?thesis
      using entry ih assms(4) by (auto split: sum.splits)
  qed
qed

lemma mapElements_h_stops:
  assumes "x \<in> set xs"
    and "recur x = Inl RangeError"
    and "\<And>v e. recur v = Inl e \<Longrightarrow> e = RangeError"
  shows "mapElements_h recur xs = Inl RangeError"
  using assms(1)
proof (induction xs)
  case Nil
  then show ?case by simp
next
  case (Cons y ys)
  show ?case
  proof (cases "y = x")
    case True
    with assms(2) show ?thesis by simp
  next
    case False
    with Cons.prems have "x \<in> set ys" by simp
    then have "mapElements_h recur ys = Inl RangeError" by (rule Cons.IH)
    then show ?thesis using assms(3) by (auto split: sum.splits)
  qed
qed

text \<open>An overflow in a call made by the method is the overflow of the method.\<close>

lemma overflow_of_callee:
  assumes "calls h obj v"
    and "objectToTableCasing_h m h depth v = Inl RangeError"
  shows "objectToTableCasing_h m h (Suc depth) obj = Inl RangeError"
proof -
  have errors: "\<And>v e. objectToTableCasing_h m h depth v = Inl e \<Longrightarrow> e = RangeError"
    by (rule only_RangeError)
  from assms(1) have object: "\<not> (typeof_h obj \<noteq> ''object'' \<or> obj = HNull)"
    by (auto split: if_splits)
  show ?thesis
  proof (cases "Array_isArray_h h obj")
    case True
    with assms(1) object have "v \<in> set (elements_h h obj)" by simp
    then have "mapElements_h (objectToTableCasing_h m h depth) (elements_h h obj)
               = Inl RangeError"
      using assms(2) errors by (rule mapElements_h_stops)
    with True object show ?thesis by simp
  next
    case False
    with assms(1) object obtain key where "(key, v) \<in> set (Object_entries_h h obj)"
      and "walked_h h v"
      by auto
    then have "forEntries_h h (getColumnName m) (tableLeaf m) (objectToTableCasing_h m h depth)
                 (Object_entries_h h obj) [] = Inl RangeError"
      using assms(2) errors by (rule forEntries_h_stops)
    with False object show ?thesis by simp
  qed
qed

text \<open>From a value that leads into a cycle of calls, some call stays on the way to it.\<close>

lemma call_towards_cycle:
  assumes "(calls h)\<^sup>*\<^sup>* obj v" and "(calls h)\<^sup>+\<^sup>+ v v"
  shows "\<exists>w. calls h obj w \<and> (calls h)\<^sup>*\<^sup>* w v"
  using assms(1)
proof (cases rule: converse_rtranclpE)
  case base
  with assms(2) show ?thesis by (blast dest: tranclpD)
next
  case (step w)
  then show ?thesis by blast
qed

lemma cycle_overflows:
  assumes "(calls h)\<^sup>*\<^sup>* obj v" and "(calls h)\<^sup>+\<^sup>+ v v"
  shows "objectToTableCasing_h m h depth obj = Inl RangeError"
  using assms(1)
proof (induction depth arbitrary: obj)
  case 0
  show ?case by simp
next
  case (Suc depth)
  from call_towards_cycle [OF Suc.prems assms(2)]
  obtain w where w: "calls h obj w" "(calls h)\<^sup>*\<^sup>* w v" by blast
  from w(2) have "objectToTableCasing_h m h depth w = Inl RangeError" by (rule Suc.IH)
  with w(1) show ?case by (rule overflow_of_callee)
qed

text \<open>
  Over the store the conversion agrees with the conversion of the tree when the stack
  has room for the nesting, and overflows when it has not.
\<close>

lemma heap_walk_agrees_on_tree:
  "objectToTableCasing_h (UnderscoreCqlToCamelCaseMappings False) nestedDocument
     (Suc (Suc 0)) (HRef 0)
   = Inr (objectToTableCasing (UnderscoreCqlToCamelCaseMappings False)
       (JObject [(''userId'', JNumber 1), (''address'', JObject [(''zipCode'', JString ''X'')])]))
   \<and> objectToTableCasing_h (UnderscoreCqlToCamelCaseMappings False) nestedDocument
     (Suc 0) (HRef 0)
   = Inl RangeError"
  by (simp add: nestedDocument_def walk_eval name_eval string_eval)

text \<open>
  A \<^verbatim>\<open>Date\<close> that holds itself as a property is assigned as a leaf by the first
  branch of the loop, and an array is mapped over its elements only: the method makes
  no call from either back to itself, and it returns.
\<close>

lemma property_of_date_or_array_returns:
  "objectToTableCasing_h DefaultTableMappings dateHoldingItself (Suc 0) (HRef 0)
     = Inr (JObject [(''self'', JDate 0)])
   \<and> objectToTableCasing_h DefaultTableMappings arrayHoldingItself (Suc (Suc 0)) (HRef 0)
     = Inr (JArray [JNumber 1])
   \<and> callees dateHoldingItself (HRef 0) = []
   \<and> callees arrayHoldingItself (HRef 0) = [HNumber 1]"
  by (simp add: dateHoldingItself_def arrayHoldingItself_def walked_h_def walk_eval)

text \<open>
  C9, as amended. In every class, \<^verbatim>\<open>objectToTableCasing\<close> given a structure in which
  its own calls (into every element of an array, into every property value that is a
  plain object or an array) lead from some value back to that value never returns and
  never raises a \<open>StructuralError\<close>: with no cycle detection and no depth bound in the
  code, the recursion goes on until the call stack is exhausted, whatever room the stack
  has, and ends in the engine's \<^verbatim>\<open>RangeError\<close>. The cycle may have any length, run
  through objects and arrays, and lie anywhere the calls reach from the argument. No
  input at all makes the method raise a \<open>StructuralError\<close>.
\<close>

theorem cyclic_input_overflows:
  "((calls h)\<^sup>*\<^sup>* obj v \<and> (calls h)\<^sup>+\<^sup>+ v v \<longrightarrow>
      objectToTableCasing_h m h depth obj = Inl RangeError)
   \<and> objectToTableCasing_h m h depth obj \<noteq> Inl StructuralError"
  using cycle_overflows [of h obj v m depth] only_RangeError [of m h depth obj]
  by auto

theorem cyclic_input_overflows_witness:
  "(calls selfReferencing)\<^sup>*\<^sup>* (HRef 0) (HRef 0)
   \<and> (calls selfReferencing)\<^sup>+\<^sup>+ (HRef 0) (HRef 0)
   \<and> objectToTableCasing_h DefaultTableMappings selfReferencing 1000 (HRef 0) = Inl RangeError
   \<and> (calls objectAndArray)\<^sup>*\<^sup>* (HRef 0) (HRef 1)
   \<and> (calls objectAndArray)\<^sup>+\<^sup>+ (HRef 1) (HRef 1)
   \<and> objectToTableCasing_h (UnderscoreCqlToPascalCaseMappings True) objectAndArray 1000 (HRef 0)
       = Inl RangeError
   \<and> (calls selfContainingArray)\<^sup>+\<^sup>+ (HRef 0) (HRef 0)
   \<and> objectToTableCasing_h (UnderscoreCqlToCamelCaseMappings False) selfContainingArray 1000
        (HRef 0) = Inl RangeError"
proof -
  have self: "calls selfReferencing (HRef 0) (HRef 0)"
    by (simp add: selfReferencing_def walked_h_def)
  have forth: "calls objectAndArray (HRef 0) (HRef 1)"
    and home: "calls objectAndArray (HRef 1) (HRef 0)"
    by (simp_all add: objectAndArray_def walked_h_def)
  have element: "calls selfContainingArray (HRef 0) (HRef 0)"
    by (simp add: selfContainingArray_def)
  have c1: "(calls selfReferencing)\<^sup>+\<^sup>+ (HRef 0) (HRef 0)"
    using self by (rule tranclp.r_into_trancl)
  have r2: "(calls objectAndArray)\<^sup>*\<^sup>* (HRef 0) (HRef 1)"
    using forth by (rule r_into_rtranclp)
  have c2: "(calls objectAndArray)\<^sup>+\<^sup>+ (HRef 1) (HRef 1)"
    using home forth by (rule tranclp.trancl_into_trancl [OF tranclp.r_into_trancl])
  have c3: "(calls selfContainingArray)\<^sup>+\<^sup>+ (HRef 0) (HRef 0)"
    using element by (rule tranclp.r_into_trancl)
  show ?thesis
    using c1 r2 c2 c3
      cyclic_input_overflows [of selfReferencing "HRef 0" "HRef 0" DefaultTableMappings 1000]
      cyclic_input_overflows [of objectAndArray "HRef 0" "HRef 1"
        "UnderscoreCqlToPascalCaseMappings True" 1000]
      cyclic_input_overflows [of selfContainingArray "HRef 0" "HRef 0"
        "UnderscoreCqlToCamelCaseMappings False" 1000]
    by blast
qed

text \<open>
  C9 as stated fails: for \<^verbatim>\<open>o.self = o\<close> and a stack with room for a thousand frames
  the camel class ends in the \<^verbatim>\<open>RangeError\<close> of the exhausted stack, not in a
  \<open>StructuralError\<close>.
\<close>

theorem no_StructuralError_counterexample:
  "objectToTableCasing_h (UnderscoreCqlToCamelCaseMappings False) selfReferencing 1000 (HRef 0)
     = Inl RangeError
   \<and> objectToTableCasing_h (UnderscoreCqlToCamelCaseMappings False) selfReferencing 1000 (HRef 0)
     \<noteq> Inl StructuralError"
proof -
  have "calls selfReferencing (HRef 0) (HRef 0)"
    by (simp add: selfReferencing_def walked_h_def)
  then have "(calls selfReferencing)\<^sup>+\<^sup>+ (HRef 0) (HRef 0)"
    by (rule tranclp.r_into_trancl)
  then have "objectToTableCasing_h (UnderscoreCqlToCamelCaseMappings False) selfReferencing
               1000 (HRef 0) = Inl RangeError"
    by (rule cycle_overflows [OF rtranclp.rtrancl_refl])
  then show ?thesis by simp
qed

subsection \<open>The empty identifier\<close>

text \<open>
  C10. In every class both conversions map the empty string to the empty string:
  \<^verbatim>\<open>getColumnName("")\<close> is \<^verbatim>\<open>""\<close>, with no underscore appended, and
  \<^verbatim>\<open>getPropertyName("")\<close> is \<^verbatim>\<open>""\<close> in the camel and in the pascal variant.
\<close>

theorem empty_identifier:
  "getColumnName m [] = [] \<and> getPropertyName m [] = []"
  by (cases m) (simp_all add: name_eval string_eval)

end
